theory Spec2Isabelle
  imports Complex_Main
begin

section \<open>Numbers\<close>

text \<open>
  The program computes with IEEE-754 numbers (GLSL \<open>highp float\<close> in the shader, JavaScript
  \<open>number\<close> in \<open>renderMandelbrot\<close>). The embedding computes with exact reals: every
  operation of the source is kept, its rounding is not. Inputs are finite numbers; the one place
  where the source reaches a NaN from finite inputs (a division by \<open>maxIter = 0\<close>) is written
  out as a branch of its own. Loop counters and iteration caps are integers; the dimensions
  of the pixel buffer and the pixel indices are natural numbers.
\<close>

section \<open>Escape-time loops\<close>

subsection \<open>Fragment shader (GPU path)\<close>

text \<open>
  \<^verbatim>\<open>
  float x = 0.0; float y = 0.0; int iter = 0;
  for(int i = 0; i < 20000; i++) {
    if(i >= uMaxIter) { break; }
    float xTemp = x*x - y*y + x0;
    y = 2.0*x*y + y0;
    x = xTemp;
    if(x*x + y*y > 4.0) { iter = i; break; }
  }
  \<close>
  The loop variables \<open>i\<close>, \<open>x\<close>, \<open>y\<close>, \<open>iter\<close> are arguments; the result is the value of
  \<open>(x, y, iter)\<close> after the loop, together with the number of times the update in the body
  has been executed (the last argument, which the source does not have: it only counts).
\<close>

function shader_loop ::
  "real \<Rightarrow> real \<Rightarrow> int \<Rightarrow> int \<Rightarrow> real \<Rightarrow> real \<Rightarrow> int \<Rightarrow> nat \<Rightarrow> real \<times> real \<times> int \<times> nat"
where
  "shader_loop x0 y0 uMaxIter i x y iter n =
     (if i < 20000 then
        (if i \<ge> uMaxIter then (x, y, iter, n)
         else
           (let xTemp = x * x - y * y + x0;
                y' = 2 * x * y + y0;
                x' = xTemp
            in if x' * x' + y' * y' > 4 then (x', y', i, Suc n)
               else shader_loop x0 y0 uMaxIter (i + 1) x' y' iter (Suc n)))
      else (x, y, iter, n))"
  by pat_completeness auto
termination
  by (relation "measure (\<lambda>(x0, y0, uMaxIter, i, x, y, iter, n). nat (20000 - i))") auto

declare shader_loop.simps [simp del]

definition shader_eval :: "real \<Rightarrow> real \<Rightarrow> int \<Rightarrow> real \<times> real \<times> int \<times> nat" where
  "shader_eval x0 y0 uMaxIter = shader_loop x0 y0 uMaxIter 0 0 0 0 0"

definition shader_iter :: "real \<Rightarrow> real \<Rightarrow> int \<Rightarrow> int" where
  "shader_iter x0 y0 uMaxIter = (case shader_eval x0 y0 uMaxIter of (x, y, iter, n) \<Rightarrow> iter)"

definition shader_updates :: "real \<Rightarrow> real \<Rightarrow> int \<Rightarrow> nat" where
  "shader_updates x0 y0 uMaxIter = (case shader_eval x0 y0 uMaxIter of (x, y, iter, n) \<Rightarrow> n)"

subsection \<open>renderMandelbrot (CPU path)\<close>

text \<open>
  \<^verbatim>\<open>
  let x = 0, y = 0, iter = 0;
  while (x * x + y * y <= 4 && iter < maxIter) {
    let xTemp = x * x - y * y + x0;
    y = 2 * x * y + y0;
    x = xTemp;
    iter++;
  }
  \<close>
  The result is the value of \<open>(x, y, iter)\<close> after the loop. \<open>maxIter\<close> is an integer, as the
  iteration cap of the data model is.
\<close>

function cpu_loop :: "real \<Rightarrow> real \<Rightarrow> int \<Rightarrow> real \<Rightarrow> real \<Rightarrow> int \<Rightarrow> real \<times> real \<times> int" where
  "cpu_loop x0 y0 maxIter x y iter =
     (if x * x + y * y \<le> 4 \<and> iter < maxIter then
        (let xTemp = x * x - y * y + x0;
             y' = 2 * x * y + y0;
             x' = xTemp
         in cpu_loop x0 y0 maxIter x' y' (iter + 1))
      else (x, y, iter))"
  by pat_completeness auto
termination
  by (relation "measure (\<lambda>(x0, y0, maxIter, x, y, iter). nat (maxIter - iter))") auto

declare cpu_loop.simps [simp del]

definition cpu_eval :: "real \<Rightarrow> real \<Rightarrow> int \<Rightarrow> real \<times> real \<times> int" where
  "cpu_eval x0 y0 maxIter = cpu_loop x0 y0 maxIter 0 0 0"

definition cpu_iter :: "real \<Rightarrow> real \<Rightarrow> int \<Rightarrow> int" where
  "cpu_iter x0 y0 maxIter = (case cpu_eval x0 y0 maxIter of (x, y, iter) \<Rightarrow> iter)"

section \<open>Coordinate mapping\<close>

text \<open>
  The shader derives the window from the uniforms (\<open>baseWidth = 3.5\<close>):
  \<^verbatim>\<open>
  float aspect = uResolution.y / uResolution.x;
  float w = baseWidth / uScale;
  float h = w * aspect;
  float xMin = uCenter.x - w / 2.0;  float xMax = uCenter.x + w / 2.0;
  float yMin = uCenter.y - h / 2.0;  float yMax = uCenter.y + h / 2.0;
  float x0 = xMin + (gl_FragCoord.x / uResolution.x) * (xMax - xMin);
  float y0 = yMin + (gl_FragCoord.y / uResolution.y) * (yMax - yMin);
  \<close>
  \<open>resX\<close>, \<open>resY\<close> are \<open>uResolution\<close>, \<open>cX\<close>, \<open>cY\<close> are \<open>uCenter\<close>, and \<open>fragX\<close>, \<open>fragY\<close> are
  \<open>gl_FragCoord.xy\<close>, the window coordinate the rasteriser hands to the shader.
\<close>

definition baseWidth :: real where
  "baseWidth = 3.5"

definition shader_window :: "real \<Rightarrow> real \<Rightarrow> real \<Rightarrow> real \<Rightarrow> real \<Rightarrow> real \<times> real \<times> real \<times> real" where
  "shader_window uScale resX resY cX cY =
     (let aspect = resY / resX;
          w = baseWidth / uScale;
          h = w * aspect;
          xMin = cX - w / 2;
          xMax = cX + w / 2;
          yMin = cY - h / 2;
          yMax = cY + h / 2
      in (xMin, xMax, yMin, yMax))"

definition shader_coords ::
  "real \<Rightarrow> real \<Rightarrow> real \<Rightarrow> real \<Rightarrow> real \<Rightarrow> real \<Rightarrow> real \<Rightarrow> real \<times> real" where
  "shader_coords uScale resX resY cX cY fragX fragY =
     (case shader_window uScale resX resY cX cY of (xMin, xMax, yMin, yMax) \<Rightarrow>
        (let x0 = xMin + (fragX / resX) * (xMax - xMin);
             y0 = yMin + (fragY / resY) * (yMax - yMin)
         in (x0, y0)))"

text \<open>
  \<open>renderMandelbrot\<close> takes the window as it is:
  \<^verbatim>\<open>
  let x0 = xMin + (px / width) * (xMax - xMin);
  let y0 = yMin + (py / height) * (yMax - yMin);
  \<close>
\<close>

definition cpu_coords ::
  "nat \<Rightarrow> nat \<Rightarrow> real \<Rightarrow> real \<Rightarrow> real \<Rightarrow> real \<Rightarrow> nat \<Rightarrow> nat \<Rightarrow> real \<times> real" where
  "cpu_coords width height xMin xMax yMin yMax px py =
     (let x0 = xMin + (real px / real width) * (xMax - xMin);
          y0 = yMin + (real py / real height) * (yMax - yMin)
      in (x0, y0))"

text \<open>
  \<open>render\<close> sets \<open>uResolution\<close> to the width and height of the canvas, and the rasteriser
  hands the fragment of the pixel \<open>(px, py)\<close> the window coordinate of its centre:
  \<open>gl_FragCoord.xy = (px + 0.5, py + 0.5)\<close>. \<open>shader_pixel_coords\<close> is the sample the shader
  takes for that pixel.
\<close>

definition fragment_centre :: "nat \<Rightarrow> real" where
  "fragment_centre p = real p + 1 / 2"

definition shader_pixel_coords ::
  "real \<Rightarrow> nat \<Rightarrow> nat \<Rightarrow> real \<Rightarrow> real \<Rightarrow> nat \<Rightarrow> nat \<Rightarrow> real \<times> real" where
  "shader_pixel_coords uScale width height cX cY px py =
     shader_coords uScale (real width) (real height) cX cY
       (fragment_centre px) (fragment_centre py)"

section \<open>Colour\<close>

text \<open>
  \<open>hue2rgb\<close> is written twice in the source, in GLSL and as a closure of \<open>hslToRgb\<close>, with
  the same body:
  \<^verbatim>\<open>
  if (t < 0) t += 1;
  if (t > 1) t -= 1;
  if (t < 1 / 6) return p + (q - p) * 6 * t;
  if (t < 1 / 2) return q;
  if (t < 2 / 3) return p + (q - p) * (2 / 3 - t) * 6;
  return p;
  \<close>
\<close>

definition hue2rgb :: "real \<Rightarrow> real \<Rightarrow> real \<Rightarrow> real" where
  "hue2rgb p q t =
     (let t1 = (if t < 0 then t + 1 else t);
          t2 = (if t1 > 1 then t1 - 1 else t1)
      in if t2 < 1 / 6 then p + (q - p) * 6 * t2
         else if t2 < 1 / 2 then q
         else if t2 < 2 / 3 then p + (q - p) * (2 / 3 - t2) * 6
         else p)"

text \<open>GLSL \<open>hsl2rgb\<close>: a \<open>vec3\<close> of floats.\<close>

definition hsl2rgb :: "real \<Rightarrow> real \<Rightarrow> real \<Rightarrow> real \<times> real \<times> real" where
  "hsl2rgb h s l =
     (let q = (if l < 0.5 then l * (1 + s) else l + s - l * s);
          p = 2 * l - q;
          r = hue2rgb p q (h + 1 / 3);
          g = hue2rgb p q h;
          b = hue2rgb p q (h - 1 / 3)
      in (r, g, b))"

text \<open>JavaScript \<open>Math.round\<close>: the nearest integer, a tie going up.\<close>

definition Math_round :: "real \<Rightarrow> int" where
  "Math_round v = \<lfloor>v + 1 / 2\<rfloor>"

text \<open>JavaScript \<open>hslToRgb\<close>: an object \<open>{r, g, b}\<close> of rounded channels.\<close>

definition hslToRgb :: "real \<Rightarrow> real \<Rightarrow> real \<Rightarrow> int \<times> int \<times> int" where
  "hslToRgb h s l =
     (let q = (if l < 0.5 then l * (1 + s) else l + s - l * s);
          p = 2 * l - q
      in (Math_round (hue2rgb p q (h + 1 / 3) * 255),
          Math_round (hue2rgb p q h * 255),
          Math_round (hue2rgb p q (h - 1 / 3) * 255)))"

text \<open>
  GLSL \<open>mod(a, b)\<close> is \<open>a - b * floor(a / b)\<close>. JavaScript \<open>a % b\<close> is the remainder of the
  division truncated towards zero: it has the sign of \<open>a\<close>.
\<close>

definition glsl_mod :: "real \<Rightarrow> real \<Rightarrow> real" where
  "glsl_mod a b = a - b * of_int \<lfloor>a / b\<rfloor>"

definition js_trunc :: "real \<Rightarrow> int" where
  "js_trunc v = (if v < 0 then \<lceil>v\<rceil> else \<lfloor>v\<rfloor>)"

definition js_rem :: "real \<Rightarrow> real \<Rightarrow> real" where
  "js_rem a b = a - b * of_int (js_trunc (a / b))"

subsection \<open>Fragment shader\<close>

text \<open>
  \<^verbatim>\<open>
  if(iter == uMaxIter) {
    gl_FragColor = vec4(0.0, 0.0, 0.0, 1.0);                       // Inside
  } else {
    float ratio = float(iter) / float(uMaxIter);                   // Outside
    float hue = mod(ratio * 360.0 + uHueShift, 360.0) / 360.0;
    vec3 color = hsl2rgb(hue, 1.0, 0.5);
    gl_FragColor = vec4(color, 1.0);
  }
  \<close>
  \<open>shader_hue\<close> is the value of \<open>mod(ratio * 360.0 + uHueShift, 360.0)\<close>, before the division
  by 360. After the loop \<open>iter\<close> is 0 whenever \<open>uMaxIter \<le> 0\<close>, so the division by
  \<open>float(uMaxIter)\<close> is reached with a non-zero divisor only (lemma \<open>shader_iter_range\<close>).
\<close>

definition shader_hue :: "int \<Rightarrow> int \<Rightarrow> real \<Rightarrow> real" where
  "shader_hue iter uMaxIter uHueShift =
     (let ratio = of_int iter / of_int uMaxIter
      in glsl_mod (ratio * 360 + uHueShift) 360)"

definition shader_color :: "int \<Rightarrow> int \<Rightarrow> real \<Rightarrow> real \<times> real \<times> real \<times> real" where
  "shader_color iter uMaxIter uHueShift =
     (if iter = uMaxIter then (0, 0, 0, 1)
      else
        (let hue = shader_hue iter uMaxIter uHueShift / 360
         in case hsl2rgb hue 1 0.5 of (r, g, b) \<Rightarrow> (r, g, b, 1)))"

text \<open>The whole of \<open>main\<close>: the value of \<open>gl_FragColor\<close> for one fragment.\<close>

definition shader_main ::
  "real \<Rightarrow> real \<Rightarrow> real \<Rightarrow> real \<Rightarrow> real \<Rightarrow> real \<Rightarrow> int \<Rightarrow> real \<Rightarrow> real \<Rightarrow> real \<times> real \<times> real \<times> real"
where
  "shader_main uScale uHueShift resX resY cX cY uMaxIter fragX fragY =
     (case shader_coords uScale resX resY cX cY fragX fragY of (x0, y0) \<Rightarrow>
        shader_color (shader_iter x0 y0 uMaxIter) uMaxIter uHueShift)"

subsection \<open>renderMandelbrot\<close>

text \<open>
  \<^verbatim>\<open>
  const ratio = iter / maxIter;
  const hue = ((ratio * 360) + hueShift) % 360;
  const c = hslToRgb(hue / 360, 1, 0.5);
  \<close>
  \<open>cpu_hue\<close> is the constant \<open>hue\<close> for \<open>maxIter \<noteq> 0\<close>. For \<open>maxIter = 0\<close> the quotient
  \<open>iter / maxIter\<close> is NaN (\<open>iter = 0\<close>) or infinite, \<open>hue\<close> is NaN in both cases, every
  comparison of \<open>hue2rgb\<close> with it is false, \<open>hue2rgb\<close> returns \<open>p = 0\<close> and \<open>c\<close> is
  \<open>{r: 0, g: 0, b: 0}\<close>: the first branch of \<open>cpu_color\<close>.
\<close>

definition cpu_hue :: "int \<Rightarrow> int \<Rightarrow> real \<Rightarrow> real" where
  "cpu_hue iter maxIter hueShift =
     (let ratio = of_int iter / of_int maxIter
      in js_rem ((ratio * 360) + hueShift) 360)"

definition cpu_color :: "int \<Rightarrow> int \<Rightarrow> real \<Rightarrow> int \<times> int \<times> int" where
  "cpu_color iter maxIter hueShift =
     (if maxIter = 0 then (0, 0, 0)
      else hslToRgb (cpu_hue iter maxIter hueShift / 360) 1 0.5)"

text \<open>
  \<open>imageData.data\<close> is a \<open>Uint8ClampedArray\<close>: storing an integer keeps it when it is a byte
  and stores the nearer end of \<open>0..255\<close> otherwise.
\<close>

definition uint8_clamp :: "int \<Rightarrow> int" where
  "uint8_clamp v = (if v < 0 then 0 else if v > 255 then 255 else v)"

text \<open>
  The body of the inner loop, for the pixel \<open>(px, py)\<close>:
  \<^verbatim>\<open>
  let x0 = ...; let y0 = ...;
  let x = 0, y = 0, iter = 0;
  while (...) { ... }
  let idx = (py * width + px) * 4;
  const ratio = ...; const hue = ...; const c = hslToRgb(hue / 360, 1, 0.5);
  data[idx] = c.r; data[idx + 1] = c.g; data[idx + 2] = c.b; data[idx + 3] = 255;
  \<close>
  \<open>pixel_bytes\<close> is the four bytes stored for a given \<open>iter\<close>, \<open>pixel_at\<close> the four bytes of
  the pixel \<open>(px, py)\<close>, \<open>write_pixel\<close> the buffer after the four stores.
\<close>

definition pixel_bytes :: "int \<Rightarrow> int \<Rightarrow> real \<Rightarrow> int list" where
  "pixel_bytes iter maxIter hueShift =
     (case cpu_color iter maxIter hueShift of (r, g, b) \<Rightarrow>
        [uint8_clamp r, uint8_clamp g, uint8_clamp b, 255])"

definition pixel_at ::
  "nat \<Rightarrow> nat \<Rightarrow> real \<Rightarrow> real \<Rightarrow> real \<Rightarrow> real \<Rightarrow> int \<Rightarrow> real \<Rightarrow> nat \<Rightarrow> nat \<Rightarrow> int list"
where
  "pixel_at width height xMin xMax yMin yMax maxIter hueShift px py =
     (case cpu_coords width height xMin xMax yMin yMax px py of (x0, y0) \<Rightarrow>
        pixel_bytes (cpu_iter x0 y0 maxIter) maxIter hueShift)"

definition write_pixel ::
  "nat \<Rightarrow> nat \<Rightarrow> real \<Rightarrow> real \<Rightarrow> real \<Rightarrow> real \<Rightarrow> int \<Rightarrow> real \<Rightarrow> nat \<Rightarrow> nat \<Rightarrow> int list \<Rightarrow> int list"
where
  "write_pixel width height xMin xMax yMin yMax maxIter hueShift px py data =
     (let c = pixel_at width height xMin xMax yMin yMax maxIter hueShift px py;
          idx = (py * width + px) * 4
      in data[idx := c ! 0, idx + 1 := c ! 1, idx + 2 := c ! 2, idx + 3 := c ! 3])"

section \<open>Driver B: renderMandelbrot\<close>

text \<open>
  \<^verbatim>\<open>
  const imageData = ctx.createImageData(width, height);
  const data = imageData.data;
  for (let px = 0; px < width; px++) {
    for (let py = 0; py < height; py++) { ... }
  }
  ctx.putImageData(imageData, 0, 0);
  \<close>
  \<open>createImageData\<close> returns a fresh buffer of \<open>4 * width * height\<close> zero bytes and throws
  an \<open>IndexSizeError\<close> when a dimension is zero. Of the rendering context the model keeps what
  the function does to it: the images handed to \<open>putImageData\<close> at \<open>(0, 0)\<close>, the latest last.
\<close>

datatype dom_error = IndexSizeError

record image_data =
  img_width :: nat
  img_height :: nat
  img_data :: "int list"

type_synonym context2d = "image_data list"

definition createImageData :: "nat \<Rightarrow> nat \<Rightarrow> dom_error + image_data" where
  "createImageData width height =
     (if width = 0 \<or> height = 0 then Inl IndexSizeError
      else Inr \<lparr>img_width = width, img_height = height,
                img_data = replicate (4 * width * height) 0\<rparr>)"

definition putImageData :: "context2d \<Rightarrow> image_data \<Rightarrow> context2d" where
  "putImageData ctx imageData = ctx @ [imageData]"

function column_loop ::
  "nat \<Rightarrow> nat \<Rightarrow> real \<Rightarrow> real \<Rightarrow> real \<Rightarrow> real \<Rightarrow> int \<Rightarrow> real \<Rightarrow> nat \<Rightarrow> nat \<Rightarrow> int list \<Rightarrow> int list"
where
  "column_loop width height xMin xMax yMin yMax maxIter hueShift px py data =
     (if py < height then
        column_loop width height xMin xMax yMin yMax maxIter hueShift px (py + 1)
          (write_pixel width height xMin xMax yMin yMax maxIter hueShift px py data)
      else data)"
  by pat_completeness auto
termination
  by (relation "measure (\<lambda>(width, height, xMin, xMax, yMin, yMax, maxIter, hueShift, px, py, data).
        height - py)") auto

declare column_loop.simps [simp del]

function pixel_loop ::
  "nat \<Rightarrow> nat \<Rightarrow> real \<Rightarrow> real \<Rightarrow> real \<Rightarrow> real \<Rightarrow> int \<Rightarrow> real \<Rightarrow> nat \<Rightarrow> int list \<Rightarrow> int list"
where
  "pixel_loop width height xMin xMax yMin yMax maxIter hueShift px data =
     (if px < width then
        pixel_loop width height xMin xMax yMin yMax maxIter hueShift (px + 1)
          (column_loop width height xMin xMax yMin yMax maxIter hueShift px 0 data)
      else data)"
  by pat_completeness auto
termination
  by (relation "measure (\<lambda>(width, height, xMin, xMax, yMin, yMax, maxIter, hueShift, px, data).
        width - px)") auto

declare pixel_loop.simps [simp del]

definition renderMandelbrot ::
  "context2d \<Rightarrow> nat \<Rightarrow> nat \<Rightarrow> real \<Rightarrow> real \<Rightarrow> real \<Rightarrow> real \<Rightarrow> int \<Rightarrow> real \<Rightarrow> dom_error + context2d"
where
  "renderMandelbrot ctx width height xMin xMax yMin yMax maxIter hueShift =
     (case createImageData width height of
        Inl e \<Rightarrow> Inl e
      | Inr imageData \<Rightarrow>
          (let data = pixel_loop width height xMin xMax yMin yMax maxIter hueShift 0
                        (img_data imageData)
           in Inr (putImageData ctx (imageData\<lparr>img_data := data\<rparr>))))"

section \<open>Driver A: the animated parameters\<close>

text \<open>
  \<^verbatim>\<open>
  const [scale, setScale] = useState(100);
  const zoomSpeed = 1.005;
  const MAX_SCALE = 1.0e6;
  setScale((prev) => {
    let newScale = prev * zoomSpeed;
    if (newScale >= MAX_SCALE) { newScale = 1.0; }
    return newScale;
  });
  const dynamicMaxIter = Math.floor(500 + 100 * Math.log(scale));
  \<close>
\<close>

definition initial_scale :: real where
  "initial_scale = 100"

definition zoomSpeed :: real where
  "zoomSpeed = 1.005"

definition MAX_SCALE :: real where
  "MAX_SCALE = 1000000"

definition scale_update :: "real \<Rightarrow> real" where
  "scale_update prev =
     (let newScale = prev * zoomSpeed
      in if newScale \<ge> MAX_SCALE then 1 else newScale)"

definition dynamicMaxIter :: "real \<Rightarrow> int" where
  "dynamicMaxIter scale = \<lfloor>500 + 100 * ln scale\<rfloor>"

section \<open>The loops, one step at a time\<close>

lemma shader_loop_stop:
  "\<not> (i < 20000 \<and> i < uMaxIter) \<Longrightarrow>
   shader_loop x0 y0 uMaxIter i x y iter n = (x, y, iter, n)"
  by (subst shader_loop.simps) auto

lemma shader_loop_escape:
  "i < 20000 \<Longrightarrow> i < uMaxIter \<Longrightarrow>
   (x * x - y * y + x0) * (x * x - y * y + x0) + (2 * x * y + y0) * (2 * x * y + y0) > 4 \<Longrightarrow>
   shader_loop x0 y0 uMaxIter i x y iter n = (x * x - y * y + x0, 2 * x * y + y0, i, Suc n)"
  by (subst shader_loop.simps) (simp add: Let_def)

lemma shader_loop_continue:
  "i < 20000 \<Longrightarrow> i < uMaxIter \<Longrightarrow>
   (x * x - y * y + x0) * (x * x - y * y + x0) + (2 * x * y + y0) * (2 * x * y + y0) \<le> 4 \<Longrightarrow>
   shader_loop x0 y0 uMaxIter i x y iter n =
     shader_loop x0 y0 uMaxIter (i + 1) (x * x - y * y + x0) (2 * x * y + y0) iter (Suc n)"
  by (subst shader_loop.simps) (simp add: Let_def)

lemma cpu_loop_stop:
  "\<not> (x * x + y * y \<le> 4 \<and> iter < maxIter) \<Longrightarrow>
   cpu_loop x0 y0 maxIter x y iter = (x, y, iter)"
  by (subst cpu_loop.simps) auto

lemma cpu_loop_continue:
  "x * x + y * y \<le> 4 \<Longrightarrow> iter < maxIter \<Longrightarrow>
   cpu_loop x0 y0 maxIter x y iter =
     cpu_loop x0 y0 maxIter (x * x - y * y + x0) (2 * x * y + y0) (iter + 1)"
  by (subst cpu_loop.simps) (simp add: Let_def)

subsection \<open>What the shader loop leaves in \<open>iter\<close>\<close>

text \<open>
  \<open>iter\<close> is assigned only where an escape is detected: after the loop it is either untouched
  or the index \<open>i\<close> of the escaping update, which is below both bounds of the loop.
\<close>

lemma shader_loop_iter:
  "shader_loop x0 y0 uMaxIter i x y iter n = (x', y', iter', n') \<Longrightarrow>
   iter' = iter \<or> (i \<le> iter' \<and> iter' < uMaxIter \<and> iter' < 20000)"
proof (induction x0 y0 uMaxIter i x y iter n rule: shader_loop.induct)
  case (1 x0 y0 uMaxIter i x y iter n)
  let ?xn = "x * x - y * y + x0" and ?yn = "2 * x * y + y0"
  show ?case
  proof (cases "i < 20000 \<and> i < uMaxIter")
    case False
    with "1.prems" show ?thesis by (simp add: shader_loop_stop)
  next
    case True
    show ?thesis
    proof (cases "?xn * ?xn + ?yn * ?yn > 4")
      case esc: True
      with True "1.prems" show ?thesis by (auto simp add: shader_loop_escape)
    next
      case noesc: False
      with True "1.prems"
      have "shader_loop x0 y0 uMaxIter (i + 1) ?xn ?yn iter (Suc n) = (x', y', iter', n')"
        by (simp add: shader_loop_continue)
      with "1.IH"[of ?xn ?yn ?xn] True noesc
      have "iter' = iter \<or> (i + 1 \<le> iter' \<and> iter' < uMaxIter \<and> iter' < 20000)"
        by (simp add: Let_def)
      then show ?thesis by auto
    qed
  qed
qed

lemma shader_iter_range:
  "shader_iter x0 y0 uMaxIter = 0 \<or>
   (0 < shader_iter x0 y0 uMaxIter \<and> shader_iter x0 y0 uMaxIter < uMaxIter)"
proof -
  obtain x' y' iter' n' where r: "shader_loop x0 y0 uMaxIter 0 0 0 0 0 = (x', y', iter', n')"
    by (metis prod_cases4)
  from shader_loop_iter[OF r] r show ?thesis
    by (auto simp: shader_iter_def shader_eval_def)
qed

text \<open>
  So for a positive cap the loop never leaves \<open>iter = uMaxIter\<close>: the first branch of the
  colour stage, \<open>iter == uMaxIter\<close>, is taken for \<open>uMaxIter = 0\<close> only.
\<close>

lemma shader_iter_below_cap: "0 < uMaxIter \<Longrightarrow> shader_iter x0 y0 uMaxIter \<noteq> uMaxIter"
  using shader_iter_range[of x0 y0 uMaxIter] by auto

text \<open>A sample that does not escape leaves \<open>iter\<close> as it was: 0 for the whole loop.\<close>

lemma shader_loop_no_escape:
  "shader_loop x0 y0 uMaxIter i x y iter n = (x', y', iter', n') \<Longrightarrow>
   x' * x' + y' * y' \<le> 4 \<Longrightarrow> iter' = iter"
proof (induction x0 y0 uMaxIter i x y iter n rule: shader_loop.induct)
  case (1 x0 y0 uMaxIter i x y iter n)
  let ?xn = "x * x - y * y + x0" and ?yn = "2 * x * y + y0"
  show ?case
  proof (cases "i < 20000 \<and> i < uMaxIter")
    case False
    with "1.prems" show ?thesis by (simp add: shader_loop_stop)
  next
    case True
    show ?thesis
    proof (cases "?xn * ?xn + ?yn * ?yn > 4")
      case esc: True
      with True "1.prems" show ?thesis by (auto simp add: shader_loop_escape)
    next
      case noesc: False
      with True "1.prems"
      have "shader_loop x0 y0 uMaxIter (i + 1) ?xn ?yn iter (Suc n) = (x', y', iter', n')"
        by (simp add: shader_loop_continue)
      with "1.IH"[of ?xn ?yn ?xn] True noesc "1.prems"(2) show ?thesis
        by (simp add: Let_def)
    qed
  qed
qed

lemma shader_eval_no_escape:
  "shader_eval x0 y0 uMaxIter = (x, y, iter, n) \<Longrightarrow> x * x + y * y \<le> 4 \<Longrightarrow> iter = 0"
  unfolding shader_eval_def by (rule shader_loop_no_escape)

text \<open>In the CPU loop such a sample has used up the cap: \<open>iter = maxIter\<close> for a cap above 0.\<close>

lemma cpu_loop_no_escape:
  "cpu_loop x0 y0 maxIter x y iter = (x', y', iter') \<Longrightarrow>
   x' * x' + y' * y' \<le> 4 \<Longrightarrow> iter' = max iter maxIter"
proof (induction x0 y0 maxIter x y iter rule: cpu_loop.induct)
  case (1 x0 y0 maxIter x y iter)
  show ?case
  proof (cases "x * x + y * y \<le> 4 \<and> iter < maxIter")
    case True
    with "1.prems"(1)
    have "cpu_loop x0 y0 maxIter (x * x - y * y + x0) (2 * x * y + y0) (iter + 1) =
        (x', y', iter')"
      by (simp add: cpu_loop_continue)
    with "1.IH"[of "x * x - y * y + x0" "2 * x * y + y0" "x * x - y * y + x0"] True "1.prems"(2)
    have "iter' = max (iter + 1) maxIter" by (simp add: Let_def)
    with True show ?thesis by simp
  next
    case False
    with "1.prems" show ?thesis by (auto simp add: cpu_loop_stop)
  qed
qed

lemma cpu_eval_no_escape:
  "cpu_eval x0 y0 maxIter = (x, y, iter) \<Longrightarrow> x * x + y * y \<le> 4 \<Longrightarrow> iter = max 0 maxIter"
  unfolding cpu_eval_def by (rule cpu_loop_no_escape)

subsection \<open>How often the shader loop updates\<close>

lemma shader_loop_updates:
  "0 \<le> i \<Longrightarrow> shader_loop x0 y0 uMaxIter i x y iter n = (x', y', iter', n') \<Longrightarrow>
   int n' \<le> int n + max 0 (min uMaxIter 20000 - i)"
proof (induction x0 y0 uMaxIter i x y iter n rule: shader_loop.induct)
  case (1 x0 y0 uMaxIter i x y iter n)
  let ?xn = "x * x - y * y + x0" and ?yn = "2 * x * y + y0"
  show ?case
  proof (cases "i < 20000 \<and> i < uMaxIter")
    case False
    with "1.prems" show ?thesis by (simp add: shader_loop_stop)
  next
    case True
    show ?thesis
    proof (cases "?xn * ?xn + ?yn * ?yn > 4")
      case esc: True
      with True "1.prems" show ?thesis by (auto simp add: shader_loop_escape)
    next
      case noesc: False
      with True "1.prems"(2)
      have "shader_loop x0 y0 uMaxIter (i + 1) ?xn ?yn iter (Suc n) = (x', y', iter', n')"
        by (simp add: shader_loop_continue)
      with "1.IH"[of ?xn ?yn ?xn] True noesc "1.prems"(1)
      have "int n' \<le> int (Suc n) + max 0 (min uMaxIter 20000 - (i + 1))"
        by (simp add: Let_def)
      with True show ?thesis by simp
    qed
  qed
qed

subsection \<open>The origin\<close>

lemma shader_loop_origin:
  "shader_loop 0 0 uMaxIter i 0 0 iter n = (x', y', iter', n') \<Longrightarrow>
   x' = 0 \<and> y' = 0 \<and> iter' = iter"
proof (induction "0::real" "0::real" uMaxIter i "0::real" "0::real" iter n
    rule: shader_loop.induct)
  case (1 uMaxIter i iter n)
  show ?case
  proof (cases "i < 20000 \<and> i < uMaxIter")
    case True
    then have "shader_loop 0 0 uMaxIter i 0 0 iter n =
        shader_loop 0 0 uMaxIter (i + 1) 0 0 iter (Suc n)"
      by (simp add: shader_loop_continue)
    with 1 True show ?thesis by simp
  next
    case False
    then show ?thesis using "1.prems" by (simp add: shader_loop_stop)
  qed
qed

lemma shader_iter_origin: "shader_iter 0 0 uMaxIter = 0"
proof -
  obtain x' y' iter' n' where r: "shader_loop 0 0 uMaxIter 0 0 0 0 0 = (x', y', iter', n')"
    by (metis prod_cases4)
  from shader_loop_origin[OF r] r show ?thesis
    by (simp add: shader_iter_def shader_eval_def)
qed

lemma cpu_loop_origin: "cpu_loop 0 0 maxIter 0 0 iter = (0, 0, max iter maxIter)"
proof (induction "0::real" "0::real" maxIter "0::real" "0::real" iter rule: cpu_loop.induct)
  case (1 maxIter iter)
  show ?case
  proof (cases "iter < maxIter")
    case True
    then have "cpu_loop 0 0 maxIter 0 0 iter = cpu_loop 0 0 maxIter 0 0 (iter + 1)"
      by (simp add: cpu_loop_continue)
    then show ?thesis using 1 True by simp
  next
    case False
    then show ?thesis by (simp add: cpu_loop_stop)
  qed
qed

lemma cpu_iter_origin: "cpu_iter 0 0 maxIter = max 0 maxIter"
  by (simp add: cpu_iter_def cpu_eval_def cpu_loop_origin)


section \<open>Remainders\<close>

lemma glsl_mod_range: "0 \<le> glsl_mod a 360 \<and> glsl_mod a 360 < 360"
proof -
  have "of_int \<lfloor>a / 360\<rfloor> \<le> a / 360" "a / 360 < of_int \<lfloor>a / 360\<rfloor> + 1"
    by linarith+
  then show ?thesis unfolding glsl_mod_def by (simp add: field_simps)
qed

lemma shader_hue_range:
  "0 \<le> shader_hue iter uMaxIter uHueShift \<and> shader_hue iter uMaxIter uHueShift < 360"
  by (simp add: shader_hue_def glsl_mod_range)

text \<open>The JavaScript remainder keeps a small dividend as it is, a negative one included.\<close>

lemma js_rem_small_nonneg: "0 \<le> a \<Longrightarrow> a < 360 \<Longrightarrow> js_rem a 360 = a"
proof -
  assume a: "0 \<le> a" "a < 360"
  then have "\<lfloor>a / 360\<rfloor> = 0" by (simp add: floor_eq_iff)
  with a show ?thesis by (simp add: js_rem_def js_trunc_def)
qed

lemma js_rem_mid: "-360 < a \<Longrightarrow> a < 0 \<Longrightarrow> js_rem a 360 = a"
proof -
  assume a: "-360 < a" "a < 0"
  then have "\<lceil>a / 360\<rceil> = 0" by (simp add: ceiling_eq_iff)
  with a show ?thesis by (simp add: js_rem_def js_trunc_def)
qed

lemma js_rem_range: "-360 < js_rem a 360 \<and> js_rem a 360 < 360"
proof -
  define q where "q = a / 360"
  have a: "a = 360 * q" by (simp add: q_def)
  have "-1 < q - of_int (js_trunc q) \<and> q - of_int (js_trunc q) < 1"
    unfolding js_trunc_def by (cases "q < 0") (simp_all, linarith+)
  then show ?thesis unfolding js_rem_def a by simp
qed

section \<open>Hue to channels\<close>

lemma hslToRgb_full:
  "hslToRgb h 1 0.5 =
     (Math_round (hue2rgb 0 1 (h + 1 / 3) * 255), Math_round (hue2rgb 0 1 h * 255),
      Math_round (hue2rgb 0 1 (h - 1 / 3) * 255))"
  by (simp add: hslToRgb_def)

section \<open>Interpolation across the window\<close>

lemma interp_bounds:
  fixes lo hi t :: real
  assumes "lo \<le> hi" "0 \<le> t" "t \<le> 1"
  shows "lo \<le> lo + t * (hi - lo)" "lo + t * (hi - lo) \<le> hi"
proof -
  from assms show "lo \<le> lo + t * (hi - lo)" by simp
  from assms have "t * (hi - lo) \<le> 1 * (hi - lo)" by (intro mult_right_mono) simp_all
  then show "lo + t * (hi - lo) \<le> hi" by simp
qed

lemma interp_strict:
  fixes lo hi t :: real
  assumes "lo < hi" "t < 1"
  shows "lo + t * (hi - lo) < hi"
proof -
  from assms have "t * (hi - lo) < 1 * (hi - lo)" by (intro mult_strict_right_mono) simp_all
  then show ?thesis by simp
qed

lemma cpu_coords_within:
  assumes "px < width" "py < height" "xMin \<le> xMax" "yMin \<le> yMax"
    and "cpu_coords width height xMin xMax yMin yMax px py = (x0, y0)"
  shows "xMin \<le> x0 \<and> x0 \<le> xMax \<and> yMin \<le> y0 \<and> y0 \<le> yMax"
proof -
  from assms(1) have tx: "0 \<le> real px / real width" "real px / real width \<le> 1" by simp_all
  from assms(2) have ty: "0 \<le> real py / real height" "real py / real height \<le> 1" by simp_all
  from assms(5) have x0: "x0 = xMin + (real px / real width) * (xMax - xMin)"
    and y0: "y0 = yMin + (real py / real height) * (yMax - yMin)"
    by (simp_all add: cpu_coords_def Let_def)
  show ?thesis
    unfolding x0 y0 using interp_bounds[OF assms(3) tx] interp_bounds[OF assms(4) ty] by simp
qed

text \<open>Over exact reals, and for \<open>xMin < xMax\<close>, the sample stays below \<open>xMax\<close>.\<close>

lemma cpu_coords_inside:
  assumes "px < width" "py < height" "xMin < xMax" "yMin \<le> yMax"
    and "cpu_coords width height xMin xMax yMin yMax px py = (x0, y0)"
  shows "xMin \<le> x0 \<and> x0 < xMax \<and> yMin \<le> y0 \<and> y0 \<le> yMax"
proof -
  from assms(1) have tx: "0 \<le> real px / real width" "real px / real width < 1" by simp_all
  from assms(2) have ty: "0 \<le> real py / real height" "real py / real height \<le> 1" by simp_all
  from assms(5) have x0: "x0 = xMin + (real px / real width) * (xMax - xMin)"
    and y0: "y0 = yMin + (real py / real height) * (yMax - yMin)"
    by (simp_all add: cpu_coords_def Let_def)
  show ?thesis
    unfolding x0 y0
    using interp_bounds[OF less_imp_le[OF assms(3)] tx(1) less_imp_le[OF tx(2)]]
      interp_strict[OF assms(3) tx(2)] interp_bounds[OF assms(4) ty]
    by simp
qed

text \<open>For a positive scale and a positive resolution the shader's window is not empty.\<close>

lemma shader_window_proper:
  assumes "0 < uScale" "0 < resX" "0 < resY"
    and "shader_window uScale resX resY cX cY = (xMin, xMax, yMin, yMax)"
  shows "xMin < xMax \<and> yMin < yMax"
proof -
  from assms(1) have w: "0 < baseWidth / uScale" by (simp add: baseWidth_def)
  from assms(2,3) have "0 < resY / resX" by simp
  with w have h: "0 < baseWidth / uScale * (resY / resX)" by (rule mult_pos_pos)
  from assms(4) have "xMax - xMin = baseWidth / uScale"
    and "yMax - yMin = baseWidth / uScale * (resY / resX)"
    by (auto simp: shader_window_def Let_def)
  with w h show ?thesis by linarith
qed

text \<open>Over exact reals a coordinate in \<open>[0, resX) \<times> [0, resY)\<close> is sampled inside it.\<close>

lemma shader_coords_inside:
  assumes "0 < uScale" "0 < resX" "0 < resY"
    and "0 \<le> fragX" "fragX < resX" "0 \<le> fragY" "fragY < resY"
    and "shader_window uScale resX resY cX cY = (xMin, xMax, yMin, yMax)"
    and "shader_coords uScale resX resY cX cY fragX fragY = (x0, y0)"
  shows "xMin \<le> x0 \<and> x0 < xMax \<and> yMin \<le> y0 \<and> y0 < yMax"
proof -
  from shader_window_proper[OF assms(1,2,3,8)] have win: "xMin < xMax" "yMin < yMax"
    by simp_all
  from assms(2,4,5) have tx: "0 \<le> fragX / resX" "fragX / resX < 1" by simp_all
  from assms(3,6,7) have ty: "0 \<le> fragY / resY" "fragY / resY < 1" by simp_all
  from assms(8,9) have x0: "x0 = xMin + (fragX / resX) * (xMax - xMin)"
    and y0: "y0 = yMin + (fragY / resY) * (yMax - yMin)"
    by (simp_all add: shader_coords_def Let_def)
  show ?thesis
    unfolding x0 y0
    using interp_bounds(1)[OF less_imp_le[OF win(1)] tx(1) less_imp_le[OF tx(2)]]
      interp_strict[OF win(1) tx(2)]
      interp_bounds(1)[OF less_imp_le[OF win(2)] ty(1) less_imp_le[OF ty(2)]]
      interp_strict[OF win(2) ty(2)]
    by simp
qed

lemma shader_pixel_coords_within:
  assumes "px < width" "py < height" "0 < uScale"
    and "shader_window uScale (real width) (real height) cX cY = (xMin, xMax, yMin, yMax)"
    and "shader_pixel_coords uScale width height cX cY px py = (x0, y0)"
  shows "xMin \<le> x0 \<and> x0 \<le> xMax \<and> yMin \<le> y0 \<and> y0 \<le> yMax"
proof -
  from assms(1,2) have pos: "0 < real width" "0 < real height" by simp_all
  have c: "0 \<le> fragment_centre px" "fragment_centre px < real width"
    "0 \<le> fragment_centre py" "fragment_centre py < real height"
    using assms(1,2) by (simp_all add: fragment_centre_def)
  from shader_coords_inside[OF assms(3) pos c assms(4)] assms(5) show ?thesis
    by (simp add: shader_pixel_coords_def)
qed

section \<open>The scale animation\<close>

lemma scale_step:
  "1 \<le> s \<Longrightarrow> s < MAX_SCALE \<Longrightarrow> 1 \<le> scale_update s \<and> scale_update s < MAX_SCALE"
  by (simp add: scale_update_def zoomSpeed_def MAX_SCALE_def Let_def)

lemma scale_reachable:
  "1 \<le> (scale_update ^^ n) initial_scale \<and> (scale_update ^^ n) initial_scale < MAX_SCALE"
proof (induction n)
  case 0
  show ?case by (simp add: initial_scale_def MAX_SCALE_def)
next
  case (Suc n)
  then show ?case using scale_step by simp
qed

lemma dynamicMaxIter_floor: "1 \<le> s \<Longrightarrow> 500 \<le> dynamicMaxIter s"
proof -
  assume "1 \<le> s"
  then have "0 \<le> ln s" by simp
  then have "(500::real) \<le> 500 + 100 * ln s" by simp
  then show ?thesis unfolding dynamicMaxIter_def by linarith
qed


section \<open>The pixel buffer\<close>

lemma length_pixel_bytes: "length (pixel_bytes iter maxIter hueShift) = 4"
  by (simp add: pixel_bytes_def split: prod.splits)

lemma length_pixel_at:
  "length (pixel_at width height xMin xMax yMin yMax maxIter hueShift px py) = 4"
  by (simp add: pixel_at_def length_pixel_bytes split: prod.splits)

lemma length_write_pixel:
  "length (write_pixel width height xMin xMax yMin yMax maxIter hueShift px py data) =
   length data"
  by (simp add: write_pixel_def Let_def)

text \<open>
  The byte \<open>j\<close> of the buffer belongs to the pixel in column \<open>j div 4 mod width\<close> and row
  \<open>j div 4 div width\<close>: the four stores of \<open>(px, py)\<close> hit exactly the bytes of that pixel.
\<close>

lemma pixel_index:
  fixes j :: nat
  assumes "px < width"
  shows "(j div 4 mod width = px \<and> j div 4 div width = py) \<longleftrightarrow>
         ((py * width + px) * 4 \<le> j \<and> j < (py * width + px) * 4 + 4)"
proof -
  have "(j div 4 mod width = px \<and> j div 4 div width = py) \<longleftrightarrow> j div 4 = py * width + px"
  proof
    assume "j div 4 mod width = px \<and> j div 4 div width = py"
    then show "j div 4 = py * width + px"
      using div_mult_mod_eq[of "j div 4" width] by simp
  next
    assume "j div 4 = py * width + px"
    with assms show "j div 4 mod width = px \<and> j div 4 div width = py" by simp
  qed
  also have "\<dots> \<longleftrightarrow> ((py * width + px) * 4 \<le> j \<and> j < (py * width + px) * 4 + 4)"
    by presburger
  finally show ?thesis .
qed

lemma nth_write_pixel:
  assumes "px < width" "j < length data"
  shows "write_pixel width height xMin xMax yMin yMax maxIter hueShift px py data ! j =
           (if j div 4 mod width = px \<and> j div 4 div width = py
            then pixel_at width height xMin xMax yMin yMax maxIter hueShift px py ! (j mod 4)
            else data ! j)"
proof -
  let ?idx = "(py * width + px) * 4"
  show ?thesis
  proof (cases "?idx \<le> j \<and> j < ?idx + 4")
    case False
    then have "j \<noteq> ?idx" "j \<noteq> ?idx + 1" "j \<noteq> ?idx + 2" "j \<noteq> ?idx + 3" by auto
    with False pixel_index[OF assms(1), of j py] show ?thesis
      by (simp add: write_pixel_def Let_def)
  next
    case True
    then consider "j = ?idx" | "j = ?idx + 1" | "j = ?idx + 2" | "j = ?idx + 3" by linarith
    then have "write_pixel width height xMin xMax yMin yMax maxIter hueShift px py data ! j =
       pixel_at width height xMin xMax yMin yMax maxIter hueShift px py ! (j - ?idx)"
      using assms(2) by cases (simp_all add: write_pixel_def Let_def)
    moreover from True have "j - ?idx = j mod 4" by presburger
    ultimately show ?thesis using True pixel_index[OF assms(1), of j py] by simp
  qed
qed

lemma length_column_loop:
  "length (column_loop width height xMin xMax yMin yMax maxIter hueShift px py data) =
   length data"
proof (induction width height xMin xMax yMin yMax maxIter hueShift px py data
    rule: column_loop.induct)
  case (1 width height xMin xMax yMin yMax maxIter hueShift px py data)
  then show ?case
    by (subst column_loop.simps) (simp add: length_write_pixel)
qed

text \<open>The inner loop, started at row \<open>py\<close>, rewrites the rows from \<open>py\<close> on of column \<open>px\<close>.\<close>

lemma nth_column_loop:
  "px < width \<Longrightarrow> j < length data \<Longrightarrow>
   column_loop width height xMin xMax yMin yMax maxIter hueShift px py data ! j =
     (if j div 4 mod width = px \<and> py \<le> j div 4 div width \<and> j div 4 div width < height
      then pixel_at width height xMin xMax yMin yMax maxIter hueShift px (j div 4 div width)
             ! (j mod 4)
      else data ! j)"
proof (induction width height xMin xMax yMin yMax maxIter hueShift px py data
    rule: column_loop.induct)
  case (1 width height xMin xMax yMin yMax maxIter hueShift px py data)
  show ?case
  proof (cases "py < height")
    case False
    then show ?thesis by (subst column_loop.simps) auto
  next
    case True
    let ?d = "write_pixel width height xMin xMax yMin yMax maxIter hueShift px py data"
    have "column_loop width height xMin xMax yMin yMax maxIter hueShift px py data ! j =
          column_loop width height xMin xMax yMin yMax maxIter hueShift px (py + 1) ?d ! j"
      using True by (subst column_loop.simps) simp
    also have "\<dots> =
      (if j div 4 mod width = px \<and> py + 1 \<le> j div 4 div width \<and> j div 4 div width < height
       then pixel_at width height xMin xMax yMin yMax maxIter hueShift px (j div 4 div width)
              ! (j mod 4)
       else ?d ! j)"
      using "1.IH"[OF True] "1.prems" by (simp add: length_write_pixel)
    finally show ?thesis
      using True nth_write_pixel[OF "1.prems", of height xMin xMax yMin yMax maxIter hueShift py]
      by auto
  qed
qed

lemma length_pixel_loop:
  "length (pixel_loop width height xMin xMax yMin yMax maxIter hueShift px data) = length data"
proof (induction width height xMin xMax yMin yMax maxIter hueShift px data
    rule: pixel_loop.induct)
  case (1 width height xMin xMax yMin yMax maxIter hueShift px data)
  then show ?case
    by (subst pixel_loop.simps) (simp add: length_column_loop)
qed

text \<open>The outer loop, started at column \<open>px\<close>, rewrites the columns from \<open>px\<close> on.\<close>

lemma nth_pixel_loop:
  "j < length data \<Longrightarrow> 0 < width \<Longrightarrow>
   pixel_loop width height xMin xMax yMin yMax maxIter hueShift px data ! j =
     (if px \<le> j div 4 mod width \<and> j div 4 div width < height
      then pixel_at width height xMin xMax yMin yMax maxIter hueShift
             (j div 4 mod width) (j div 4 div width) ! (j mod 4)
      else data ! j)"
proof (induction width height xMin xMax yMin yMax maxIter hueShift px data
    rule: pixel_loop.induct)
  case (1 width height xMin xMax yMin yMax maxIter hueShift px data)
  have m: "j div 4 mod width < width" using "1.prems"(2) by simp
  show ?case
  proof (cases "px < width")
    case False
    with m show ?thesis by (subst pixel_loop.simps) auto
  next
    case True
    let ?d = "column_loop width height xMin xMax yMin yMax maxIter hueShift px 0 data"
    have "pixel_loop width height xMin xMax yMin yMax maxIter hueShift px data ! j =
          pixel_loop width height xMin xMax yMin yMax maxIter hueShift (px + 1) ?d ! j"
      using True by (subst pixel_loop.simps) simp
    also have "\<dots> =
      (if px + 1 \<le> j div 4 mod width \<and> j div 4 div width < height
       then pixel_at width height xMin xMax yMin yMax maxIter hueShift
              (j div 4 mod width) (j div 4 div width) ! (j mod 4)
       else ?d ! j)"
      using "1.IH"[OF True] "1.prems" by (simp add: length_column_loop)
    finally show ?thesis
      using True
        nth_column_loop[OF True "1.prems"(1), of height xMin xMax yMin yMax maxIter hueShift 0]
      by auto
  qed
qed

text \<open>
  With positive dimensions \<open>renderMandelbrot\<close> returns, having handed one image to
  \<open>putImageData\<close>: the fresh buffer after the two loops. Nothing of the context is read.
\<close>

lemma render_total:
  "0 < width \<Longrightarrow> 0 < height \<Longrightarrow>
   renderMandelbrot ctx width height xMin xMax yMin yMax maxIter hueShift =
     Inr (ctx @ [\<lparr>img_width = width, img_height = height,
       img_data = pixel_loop width height xMin xMax yMin yMax maxIter hueShift 0
                    (replicate (4 * width * height) 0)\<rparr>])"
  by (simp add: renderMandelbrot_def createImageData_def putImageData_def Let_def)

lemma pixel_offset_in_buffer:
  fixes px py k width height :: nat
  assumes "px < width" "py < height" "k < 4"
  shows "(py * width + px) * 4 + k < 4 * width * height"
proof -
  from assms(1) have "py * width + px < (py + 1) * width" by simp
  also from assms(2) have "(py + 1) * width \<le> height * width"
    by (intro mult_le_mono1) simp
  finally have "py * width + px + 1 \<le> height * width" by simp
  then have "(py * width + px + 1) * 4 \<le> height * width * 4" by (rule mult_le_mono1)
  with assms(3) show ?thesis by (simp add: algebra_simps)
qed

text \<open>Every pixel of the finished buffer holds the four bytes of its own sample.\<close>

lemma render_pixel:
  assumes "px < width" "py < height" "k < 4"
  shows "pixel_loop width height xMin xMax yMin yMax maxIter hueShift 0
           (replicate (4 * width * height) 0) ! ((py * width + px) * 4 + k) =
         pixel_at width height xMin xMax yMin yMax maxIter hueShift px py ! k"
proof -
  let ?j = "(py * width + px) * 4 + k"
  have j: "?j < length (replicate (4 * width * height) (0::int))"
    using pixel_offset_in_buffer[OF assms] by simp
  from assms(3) have "(q * 4 + k) div 4 = q \<and> (q * 4 + k) mod 4 = k" for q :: nat
    by simp
  then have d: "?j div 4 = py * width + px" and m: "?j mod 4 = k" by blast+
  from assms(1) have c: "?j div 4 mod width = px" "?j div 4 div width = py"
    unfolding d by simp_all
  from assms(1) have w: "0 < width" by simp
  show ?thesis
    unfolding nth_pixel_loop[OF j w] c m using assms(2) by simp
qed

section \<open>The claims\<close>

subsection \<open>Samples that do not escape\<close>

text \<open>
  With saturation 1 and lightness 0.5 one channel is always full: the colour of a hue is
  never black.
\<close>

lemma hsl2rgb_full_channel:
  assumes "0 \<le> h" "h < 1"
  shows "case hsl2rgb h 1 0.5 of (r, g, b) \<Rightarrow> r = 1 \<or> g = 1 \<or> b = 1"
proof -
  consider "h < 1 / 6" | "1 / 6 \<le> h" "h < 1 / 2" | "1 / 2 \<le> h" "h < 5 / 6" | "5 / 6 \<le> h"
    by linarith
  then show ?thesis
  proof cases
    case 1
    with assms have "hue2rgb 0 1 (h + 1 / 3) = 1" by (simp add: hue2rgb_def Let_def)
    then show ?thesis by (simp add: hsl2rgb_def)
  next
    case 2
    then have "hue2rgb 0 1 h = 1" by (simp add: hue2rgb_def Let_def)
    then show ?thesis by (simp add: hsl2rgb_def)
  next
    case 3
    then have "hue2rgb 0 1 (h - 1 / 3) = 1" by (simp add: hue2rgb_def Let_def)
    then show ?thesis by (simp add: hsl2rgb_def)
  next
    case 4
    with assms have "hue2rgb 0 1 (h + 1 / 3) = 1" by (simp add: hue2rgb_def Let_def)
    then show ?thesis by (simp add: hsl2rgb_def)
  qed
qed

text \<open>
  The colour stage of the shader, taken alone, is black at \<open>iter = uMaxIter\<close> for every hue
  shift. The loop before it never delivers that value for a positive cap (lemma
  \<open>shader_iter_below_cap\<close>).
\<close>

lemma shader_color_at_cap: "shader_color uMaxIter uMaxIter uHueShift = (0, 0, 0, 1)"
  by (simp add: shader_color_def)

text \<open>
  In the shader a sample that has not escaped leaves the loop with \<open>iter = 0\<close>, so for a
  positive cap the test \<open>iter == uMaxIter\<close> fails and the fragment gets the colour of
  \<open>ratio = 0\<close>, which is not black.
\<close>

lemma shader_inside_not_black:
  assumes "shader_eval x0 y0 uMaxIter = (x, y, iter, n)" "x * x + y * y \<le> 4" "0 < uMaxIter"
  shows "shader_color (shader_iter x0 y0 uMaxIter) uMaxIter uHueShift \<noteq> (0, 0, 0, 1)"
proof -
  from shader_eval_no_escape[OF assms(1,2)] assms(1) have i: "shader_iter x0 y0 uMaxIter = 0"
    by (simp add: shader_iter_def)
  define h where "h = shader_hue 0 uMaxIter uHueShift / 360"
  from shader_hue_range[of 0 uMaxIter uHueShift] have "0 \<le> h" "h < 1" by (simp_all add: h_def)
  from hsl2rgb_full_channel[OF this] assms(3) show ?thesis
    unfolding i shader_color_def h_def by (auto split: prod.splits)
qed

text \<open>
  In \<open>renderMandelbrot\<close> a sample that has not escaped has \<open>iter = maxIter\<close> and, for a
  positive cap, \<open>ratio = 1\<close>: its bytes are those of a hue, with one channel at 255.
\<close>

lemma hslToRgb_full_channel:
  assumes "-1 < h" "h < 1"
  shows "case hslToRgb h 1 0.5 of (r, g, b) \<Rightarrow> r = 255 \<or> g = 255 \<or> b = 255"
proof -
  have one: "Math_round (1 * 255) = 255" by (simp add: Math_round_def)
  have "hue2rgb 0 1 (h + 1 / 3) = 1 \<or> hue2rgb 0 1 h = 1 \<or> hue2rgb 0 1 (h - 1 / 3) = 1"
  proof -
    consider "h < - 5 / 6" | "- 5 / 6 \<le> h" "h < - 1 / 2" | "- 1 / 2 \<le> h" "h < - 1 / 6"
      | "- 1 / 6 \<le> h" "h < 1 / 6" | "1 / 6 \<le> h" "h < 1 / 2" | "1 / 2 \<le> h" "h < 5 / 6"
      | "5 / 6 \<le> h"
      by linarith
    then show ?thesis
    proof cases
      case 1
      with assms have "hue2rgb 0 1 (h + 1 / 3) = 1" by (simp add: hue2rgb_def Let_def)
      then show ?thesis by simp
    next
      case 2
      then have "hue2rgb 0 1 h = 1" by (simp add: hue2rgb_def Let_def)
      then show ?thesis by simp
    next
      case 3
      then have "hue2rgb 0 1 (h - 1 / 3) = 1" by (simp add: hue2rgb_def Let_def)
      then show ?thesis by simp
    next
      case 4
      then have "hue2rgb 0 1 (h + 1 / 3) = 1" by (simp add: hue2rgb_def Let_def)
      then show ?thesis by simp
    next
      case 5
      then have "hue2rgb 0 1 h = 1" by (simp add: hue2rgb_def Let_def)
      then show ?thesis by simp
    next
      case 6
      then have "hue2rgb 0 1 (h - 1 / 3) = 1" by (simp add: hue2rgb_def Let_def)
      then show ?thesis by simp
    next
      case 7
      with assms have "hue2rgb 0 1 (h + 1 / 3) = 1" by (simp add: hue2rgb_def Let_def)
      then show ?thesis by simp
    qed
  qed
  with one show ?thesis unfolding hslToRgb_full prod.case by auto
qed

lemma cpu_inside_not_black:
  assumes "0 < maxIter"
  shows "pixel_bytes maxIter maxIter hueShift \<noteq> [0, 0, 0, 255]"
proof -
  define a where "a = cpu_hue maxIter maxIter hueShift"
  from js_rem_range[of "360 + hueShift"] assms have "-360 < a" "a < 360"
    by (simp_all add: a_def cpu_hue_def)
  then have h: "-1 < a / 360" "a / 360 < 1" by simp_all
  have c: "cpu_color maxIter maxIter hueShift = hslToRgb (a / 360) 1 0.5"
    using assms by (simp add: cpu_color_def a_def)
  have clamp: "uint8_clamp 255 = 255" by (simp add: uint8_clamp_def)
  from hslToRgb_full_channel[OF h] clamp show ?thesis
    unfolding pixel_bytes_def c by (auto split: prod.splits)
qed

text \<open>
  C1 (the code departs from the claim). The origin never escapes. For \<open>uMaxIter = 5\<close> and
  \<open>uHueShift = 0\<close> the shader colours the fragment that maps to it red, and
  \<open>renderMandelbrot\<close>, which has no branch for samples that did not escape, stores red too.
  (Lemmas \<open>shader_inside_not_black\<close> and \<open>cpu_inside_not_black\<close>: no such sample is black,
  whatever the hue shift.)
\<close>

theorem inside_sample_is_coloured:
  "shader_main 1 0 3 3 0 0 5 (3 / 2) (3 / 2) = (1, 0, 0, 1) \<and>
   renderMandelbrot [] 1 1 0 1 0 1 5 0 =
     Inr [\<lparr>img_width = 1, img_height = 1, img_data = [255, 0, 0, 255]\<rparr>]"
proof
  have "shader_coords 1 3 3 0 0 (3 / 2) (3 / 2) = (0, 0)"
    by (simp add: shader_coords_def shader_window_def baseWidth_def)
  moreover have "shader_color 0 5 0 = (1, 0, 0, 1)"
    by (simp add: shader_color_def shader_hue_def glsl_mod_def hsl2rgb_def hue2rgb_def)
  ultimately show "shader_main 1 0 3 3 0 0 5 (3 / 2) (3 / 2) = (1, 0, 0, 1)"
    by (simp add: shader_main_def shader_iter_origin)
next
  have "pixel_bytes 5 5 0 = [255, 0, 0, 255]"
    using js_rem_small_nonneg[of 0]
    by (simp add: pixel_bytes_def cpu_color_def cpu_hue_def js_rem_def js_trunc_def
        hslToRgb_def hue2rgb_def Math_round_def uint8_clamp_def)
  then have "pixel_at 1 1 0 1 0 1 5 0 0 0 = [255, 0, 0, 255]"
    by (simp add: pixel_at_def cpu_coords_def cpu_iter_origin)
  then have "pixel_loop 1 1 0 1 0 1 5 0 0 [0, 0, 0, 0] = [255, 0, 0, 255]"
    by (simp add: pixel_loop.simps column_loop.simps write_pixel_def)
  then show "renderMandelbrot [] 1 1 0 1 0 1 5 0 =
      Inr [\<lparr>img_width = 1, img_height = 1, img_data = [255, 0, 0, 255]\<rparr>]"
    by (simp add: render_total numeral_eq_Suc)
qed

subsection \<open>The two evaluators\<close>

text \<open>
  C2 (the code departs from the claim). The two loops count differently. The sample \<open>(3, 0)\<close>
  escapes at the first update: with a cap of 8 the shader records the index of that update,
  \<open>iter = 0\<close>, and the CPU loop the number of updates made, \<open>iter = 1\<close>. The colour follows the
  count: with a hue shift of 0 the shader draws the hue 0, red, for the fragment that samples
  \<open>(3, 0)\<close>, and \<open>renderMandelbrot\<close> stores the hue 45, orange, for the pixel that does.
\<close>

theorem evaluators_count_differently:
  "shader_eval 3 0 8 = (3, 0, 0, 1) \<and> cpu_eval 3 0 8 = (3, 0, 1) \<and>
   shader_iter 3 0 8 \<noteq> cpu_iter 3 0 8 \<and>
   shader_main 1 0 3 3 3 0 8 (3 / 2) (3 / 2) = (1, 0, 0, 1) \<and>
   renderMandelbrot [] 1 1 3 4 0 1 8 0 =
     Inr [\<lparr>img_width = 1, img_height = 1, img_data = [255, 191, 0, 255]\<rparr>]"
proof -
  have g: "shader_eval 3 0 8 = (3, 0, 0, 1)"
    by (simp add: shader_eval_def shader_loop_escape)
  have c: "cpu_eval 3 0 8 = (3, 0, 1)"
    by (simp add: cpu_eval_def cpu_loop_continue cpu_loop_stop)
  from g c have i: "shader_iter 3 0 8 = 0" "cpu_iter 3 0 8 = 1"
    by (simp_all add: shader_iter_def cpu_iter_def)
  have "shader_coords 1 3 3 3 0 (3 / 2) (3 / 2) = (3, 0)"
    by (simp add: shader_coords_def shader_window_def baseWidth_def)
  moreover have "shader_color 0 8 0 = (1, 0, 0, 1)"
    by (simp add: shader_color_def shader_hue_def glsl_mod_def hsl2rgb_def hue2rgb_def)
  ultimately have gm: "shader_main 1 0 3 3 3 0 8 (3 / 2) (3 / 2) = (1, 0, 0, 1)"
    by (simp add: shader_main_def i)
  have "cpu_hue 1 8 0 = 45"
    using js_rem_small_nonneg[of 45] by (simp add: cpu_hue_def)
  then have "pixel_bytes 1 8 0 = [255, 191, 0, 255]"
    by (simp add: pixel_bytes_def cpu_color_def hslToRgb_def hue2rgb_def Math_round_def
        uint8_clamp_def)
  then have "pixel_at 1 1 3 4 0 1 8 0 0 0 = [255, 191, 0, 255]"
    by (simp add: pixel_at_def cpu_coords_def i)
  then have "pixel_loop 1 1 3 4 0 1 8 0 0 [0, 0, 0, 0] = [255, 191, 0, 255]"
    by (simp add: pixel_loop.simps column_loop.simps write_pixel_def)
  then have cm: "renderMandelbrot [] 1 1 3 4 0 1 8 0 =
      Inr [\<lparr>img_width = 1, img_height = 1, img_data = [255, 191, 0, 255]\<rparr>]"
    by (simp add: render_total numeral_eq_Suc)
  from g c i gm cm show ?thesis by simp
qed

text \<open>
  C3 (counterexample). For the sample \<open>(2, 0)\<close> and a cap of 5 neither loop ends with an
  iteration count of 0.
\<close>

theorem two_zero_count_not_zero: "shader_iter 2 0 5 \<noteq> 0 \<and> cpu_iter 2 0 5 \<noteq> 0"
  by (simp add: shader_iter_def shader_eval_def shader_loop_continue shader_loop_escape
      cpu_iter_def cpu_eval_def cpu_loop_continue cpu_loop_stop)

text \<open>
  C3 (as amended). For the sample \<open>(2, 0)\<close> the first update gives \<open>(2, 0)\<close>, of squared
  magnitude exactly 4, which the strict test does not count as an escape: with a cap of 1
  both loops end there, the shader with \<open>iter = 0\<close> untouched and the CPU loop with
  \<open>iter = 1\<close>. For every cap of at least 2 the escape is detected at the second update, which
  gives \<open>(6, 0)\<close>: the shader records \<open>iter = 1\<close> and the CPU loop ends with \<open>iter = 2\<close>.
\<close>

theorem two_zero_escapes_at_second_update:
  assumes "2 \<le> maxIter"
  shows "shader_eval 2 0 1 = (2, 0, 0, 1) \<and> cpu_eval 2 0 1 = (2, 0, 1) \<and>
         shader_eval 2 0 maxIter = (6, 0, 1, 2) \<and> cpu_eval 2 0 maxIter = (6, 0, 2)"
  using assms
  by (simp add: shader_eval_def shader_loop_continue shader_loop_escape shader_loop_stop
      cpu_eval_def cpu_loop_continue cpu_loop_stop)

theorem two_zero_escapes_at_second_update_witness:
  "(2::int) \<le> 5 \<and> shader_eval 2 0 5 = (6, 0, 1, 2) \<and> cpu_eval 2 0 5 = (6, 0, 2)"
proof -
  have h: "(2::int) \<le> 5" by simp
  from two_zero_escapes_at_second_update[OF h] show ?thesis by simp
qed

subsection \<open>The hue\<close>

text \<open>
  The shader's \<open>mod\<close> is a true modulo: its hue lies in \<open>[0, 360)\<close> for every hue shift
  (lemma \<open>shader_hue_range\<close>).

  C4 (the code departs from the claim). \<open>renderMandelbrot\<close> reduces with \<open>%\<close>, which
  truncates. The sample \<open>(3, 0)\<close> escapes at the first update; with \<open>maxIter = 4\<close> and
  \<open>hueShift = -100\<close> the constant \<open>hue\<close> is \<open>(0.25 * 360 + -100) % 360 = -10\<close>, where the
  shader has 350. It is the sample of the one pixel of a \<open>1 \<times> 1\<close> buffer over the window
  \<open>[3, 4] \<times> [0, 1]\<close>.
\<close>

theorem cpu_hue_negative:
  "cpu_coords 1 1 3 4 0 1 0 0 = (3, 0) \<and> cpu_iter 3 0 4 = 1 \<and>
   cpu_hue (cpu_iter 3 0 4) 4 (-100) = -10 \<and> shader_hue 1 4 (-100) = 350"
proof -
  have i: "cpu_coords 1 1 3 4 0 1 0 0 = (3, 0)" "cpu_iter 3 0 4 = 1"
    by (simp_all add: cpu_coords_def cpu_iter_def cpu_eval_def cpu_loop_continue cpu_loop_stop)
  have "cpu_hue 1 4 (-100) = -10"
    using js_rem_mid[of "-10"] by (simp add: cpu_hue_def)
  moreover have "\<lfloor>- (1 / 36) :: real\<rfloor> = -1" by (simp add: floor_eq_iff)
  then have "shader_hue 1 4 (-100) = 350"
    by (simp add: shader_hue_def glsl_mod_def)
  ultimately show ?thesis using i by simp
qed

subsection \<open>The origin\<close>

text \<open>
  For every cap the CPU loop ends at the origin with \<open>iter = maxIter\<close> (lemma
  \<open>cpu_iter_origin\<close>), and the shader loop with \<open>iter = 0\<close> (lemma \<open>shader_iter_origin\<close>).

  C5 (the code departs from the claim). For the sample \<open>(0, 0)\<close> and a cap of 5 the shader
  loop makes its 5 updates, stays at the origin and leaves \<open>iter = 0\<close>, not 5; the CPU loop
  ends with \<open>iter = 5\<close>.
\<close>

theorem origin_shader_iter_zero:
  "shader_eval 0 0 5 = (0, 0, 0, 5) \<and> cpu_eval 0 0 5 = (0, 0, 5)"
  by (simp add: shader_eval_def shader_loop_continue shader_loop_stop
      cpu_eval_def cpu_loop_continue cpu_loop_stop)


subsection \<open>Samples lie in the window\<close>

text \<open>
  C6 (counterexample). The claim fails in three places. The shader samples a pixel at its
  centre: for scale 1, centre \<open>(0, 0)\<close> and a \<open>4 \<times> 2\<close> canvas the window starts at \<open>-7/4\<close> and
  pixel 0 maps to \<open>-21/16\<close>. \<open>renderMandelbrot\<close> takes any window: for \<open>xMin = xMax = 1\<close> the
  last column maps to \<open>xMax\<close> itself, and for \<open>xMin = 1\<close>, \<open>xMax = 0\<close> column 1 of 2 maps to
  \<open>1/2\<close>, below \<open>xMin\<close>.
\<close>

theorem coords_claim_fails:
  "shader_window 1 4 2 0 0 = (- 7 / 4, 7 / 4, - 7 / 8, 7 / 8) \<and>
   shader_pixel_coords 1 4 2 0 0 0 0 = (- 21 / 16, - 7 / 16) \<and>
   fst (shader_pixel_coords 1 4 2 0 0 0 0) \<noteq> - 7 / 4 \<and>
   cpu_coords 2 1 1 1 0 0 1 0 = (1, 0) \<and>
   \<not> fst (cpu_coords 2 1 1 1 0 0 1 0) < 1 \<and>
   cpu_coords 2 1 1 0 0 0 1 0 = (1 / 2, 0) \<and>
   \<not> 1 \<le> fst (cpu_coords 2 1 1 0 0 0 1 0)"
  by (simp add: shader_pixel_coords_def fragment_centre_def shader_coords_def
      shader_window_def baseWidth_def cpu_coords_def)

text \<open>
  C6 (as amended). For a window with \<open>xMin \<le> xMax\<close> and \<open>yMin \<le> yMax\<close> and a pixel \<open>(px, py)\<close>
  of a \<open>width \<times> height\<close> buffer, the sample of \<open>renderMandelbrot\<close> lies in
  \<open>[xMin, xMax] \<times> [yMin, yMax]\<close>; column 0 maps to \<open>xMin\<close> and row 0 to \<open>yMin\<close>. For a positive
  scale the shader samples the pixel at its centre, \<open>x0 = wxMin + ((px + 0.5) / width) *
  (wxMax - wxMin)\<close> and likewise \<open>y0\<close>, inside its own window \<open>(wxMin, wxMax, wyMin, wyMax)\<close>.
  Nothing is said of a strict upper bound: over exact reals the sample stays below \<open>xMax\<close>
  when \<open>xMin < xMax\<close> (lemma \<open>cpu_coords_inside\<close>), but the rounding of the program's
  arithmetic can bring the last columns up to \<open>xMax\<close>.
\<close>

theorem coords_within_window:
  assumes "px < width" "py < height" "xMin \<le> xMax" "yMin \<le> yMax" "0 < uScale"
    and "shader_window uScale (real width) (real height) cX cY = (wxMin, wxMax, wyMin, wyMax)"
  shows "xMin \<le> fst (cpu_coords width height xMin xMax yMin yMax px py) \<and>
         fst (cpu_coords width height xMin xMax yMin yMax px py) \<le> xMax \<and>
         yMin \<le> snd (cpu_coords width height xMin xMax yMin yMax px py) \<and>
         snd (cpu_coords width height xMin xMax yMin yMax px py) \<le> yMax \<and>
         fst (cpu_coords width height xMin xMax yMin yMax 0 py) = xMin \<and>
         snd (cpu_coords width height xMin xMax yMin yMax px 0) = yMin \<and>
         shader_pixel_coords uScale width height cX cY px py =
           (wxMin + ((real px + 1 / 2) / real width) * (wxMax - wxMin),
            wyMin + ((real py + 1 / 2) / real height) * (wyMax - wyMin)) \<and>
         wxMin \<le> fst (shader_pixel_coords uScale width height cX cY px py) \<and>
         fst (shader_pixel_coords uScale width height cX cY px py) \<le> wxMax \<and>
         wyMin \<le> snd (shader_pixel_coords uScale width height cX cY px py) \<and>
         snd (shader_pixel_coords uScale width height cX cY px py) \<le> wyMax"
proof -
  obtain x0 y0 where c: "cpu_coords width height xMin xMax yMin yMax px py = (x0, y0)"
    by (cases "cpu_coords width height xMin xMax yMin yMax px py")
  obtain x1 y1 where s: "shader_pixel_coords uScale width height cX cY px py = (x1, y1)"
    by (cases "shader_pixel_coords uScale width height cX cY px py")
  have zero: "fst (cpu_coords width height xMin xMax yMin yMax 0 py) = xMin"
    "snd (cpu_coords width height xMin xMax yMin yMax px 0) = yMin"
    by (simp_all add: cpu_coords_def)
  have formula: "shader_pixel_coords uScale width height cX cY px py =
      (wxMin + ((real px + 1 / 2) / real width) * (wxMax - wxMin),
       wyMin + ((real py + 1 / 2) / real height) * (wyMax - wyMin))"
    using assms(6)
    by (simp add: shader_pixel_coords_def fragment_centre_def shader_coords_def)
  from cpu_coords_within[OF assms(1,2,3,4) c] shader_pixel_coords_within[OF assms(1,2,5,6) s]
    zero formula
  show ?thesis unfolding c s by simp
qed

theorem coords_within_window_witness:
  "(1::nat) < 4 \<and> (1::nat) < 2 \<and> (-2::real) \<le> 2 \<and> (-1::real) \<le> 1 \<and> (0::real) < 1 \<and>
   shader_window 1 (real (4::nat)) (real (2::nat)) 0 0 = (- 7 / 4, 7 / 4, - 7 / 8, 7 / 8) \<and>
   cpu_coords 4 2 (-2) 2 (-1) 1 1 1 = (-1, 0) \<and>
   cpu_coords 4 2 (-2) 2 (-1) 1 0 1 = (-2, 0) \<and>
   shader_pixel_coords 1 4 2 0 0 1 1 = (- 7 / 16, 7 / 16) \<and>
   - 7 / 4 \<le> fst (shader_pixel_coords 1 4 2 0 0 1 1) \<and>
   fst (shader_pixel_coords 1 4 2 0 0 1 1) \<le> 7 / 4"
proof -
  have h: "(1::nat) < 4" "(1::nat) < 2" "(-2::real) \<le> 2" "(-1::real) \<le> 1" "(0::real) < 1"
    by simp_all
  have w: "shader_window 1 (real (4::nat)) (real (2::nat)) 0 0 =
      (- 7 / 4, 7 / 4, - 7 / 8, 7 / 8)"
    by (simp add: shader_window_def baseWidth_def)
  have e: "cpu_coords 4 2 (-2) 2 (-1) 1 1 1 = (-1, 0)"
    "cpu_coords 4 2 (-2) 2 (-1) 1 0 1 = (-2, 0)"
    by (simp_all add: cpu_coords_def)
  from coords_within_window[OF h w] h w e show ?thesis by simp
qed

subsection \<open>A hue shift of 360\<close>

text \<open>
  C7 (the code departs from the claim). In \<open>renderMandelbrot\<close> the hue shifts \<open>-390\<close> and
  \<open>-390 + 360 = -30\<close> give different colours for the same iteration result. For the sample
  \<open>(3, 0)\<close> with \<open>maxIter = 4\<close> (\<open>iter = 1\<close>) the truncating \<open>%\<close> leaves the hue \<open>-300\<close> for the
  first and 60 for the second, and \<open>hslToRgb\<close>, whose \<open>hue2rgb\<close> adds 1 to \<open>t\<close> but once,
  returns the blue channel \<open>-255\<close> for the first and 0 for the second.
\<close>

theorem hue_shift_triple_differs:
  "cpu_iter 3 0 4 = 1 \<and>
   cpu_hue 1 4 (-390) = -300 \<and> cpu_color 1 4 (-390) = (255, 255, -255) \<and>
   cpu_hue 1 4 (-30) = 60 \<and> cpu_color 1 4 (-30) = (255, 255, 0) \<and>
   cpu_color 1 4 (-390) \<noteq> cpu_color 1 4 (-390 + 360)"
proof -
  have i: "cpu_iter 3 0 4 = 1"
    by (simp add: cpu_iter_def cpu_eval_def cpu_loop_continue cpu_loop_stop)
  have a: "cpu_hue 1 4 (-390) = -300"
    using js_rem_mid[of "-300"] by (simp add: cpu_hue_def)
  have b: "cpu_hue 1 4 (-30) = 60"
    using js_rem_small_nonneg[of 60] by (simp add: cpu_hue_def)
  have ca: "cpu_color 1 4 (-390) = (255, 255, -255)"
    unfolding cpu_color_def a by (simp add: hslToRgb_def hue2rgb_def Math_round_def)
  have cb: "cpu_color 1 4 (-30) = (255, 255, 0)"
    unfolding cpu_color_def b by (simp add: hslToRgb_def hue2rgb_def Math_round_def)
  from i a b ca cb show ?thesis by simp
qed

subsection \<open>Rendering twice\<close>

text \<open>
  C8. The result of either escape-time loop is a function of \<open>(x0, y0, maxIter)\<close>: the loop
  variables are initialised afresh for every sample. \<open>renderMandelbrot\<close> builds its image in
  a buffer of its own and reads nothing of the context: for a pixel \<open>(px, py)\<close> of a
  \<open>width \<times> height\<close> buffer, whatever two contexts \<open>ctx1\<close> and \<open>ctx2\<close> held before, both calls
  present the same image \<open>img\<close>, in which the byte \<open>k\<close> of the pixel is the byte \<open>k\<close> of
  \<open>pixel_at\<close>, a function of the pixel's own sample, \<open>maxIter\<close> and \<open>hueShift\<close>; and a
  second call on the context left by the first presents that image again.
\<close>

theorem render_deterministic:
  assumes "px < width" "py < height" "k < 4"
  shows "\<exists>img.
           renderMandelbrot ctx1 width height xMin xMax yMin yMax maxIter hueShift =
             Inr (ctx1 @ [img]) \<and>
           renderMandelbrot ctx2 width height xMin xMax yMin yMax maxIter hueShift =
             Inr (ctx2 @ [img]) \<and>
           renderMandelbrot (ctx1 @ [img]) width height xMin xMax yMin yMax maxIter hueShift =
             Inr (ctx1 @ [img, img]) \<and>
           length (img_data img) = 4 * width * height \<and>
           img_data img ! ((py * width + px) * 4 + k) =
             pixel_at width height xMin xMax yMin yMax maxIter hueShift px py ! k"
proof -
  from assms have pos: "0 < width" "0 < height" by simp_all
  let ?img = "\<lparr>img_width = width, img_height = height,
      img_data = pixel_loop width height xMin xMax yMin yMax maxIter hueShift 0
                   (replicate (4 * width * height) 0)\<rparr>"
  have "renderMandelbrot ctx1 width height xMin xMax yMin yMax maxIter hueShift =
          Inr (ctx1 @ [?img])"
    and "renderMandelbrot ctx2 width height xMin xMax yMin yMax maxIter hueShift =
          Inr (ctx2 @ [?img])"
    and "renderMandelbrot (ctx1 @ [?img]) width height xMin xMax yMin yMax maxIter hueShift =
          Inr (ctx1 @ [?img, ?img])"
    by (simp_all add: render_total[OF pos])
  moreover have "length (img_data ?img) = 4 * width * height"
    by (simp add: length_pixel_loop)
  moreover have "img_data ?img ! ((py * width + px) * 4 + k) =
      pixel_at width height xMin xMax yMin yMax maxIter hueShift px py ! k"
    using render_pixel[OF assms] by simp
  ultimately show ?thesis by blast
qed

theorem render_deterministic_witness:
  "(0::nat) < 1 \<and> (0::nat) < 4 \<and>
   (\<exists>img. renderMandelbrot [] 1 1 0 1 0 1 5 0 = Inr ([] @ [img]) \<and>
          renderMandelbrot [img] 1 1 0 1 0 1 5 0 = Inr ([img] @ [img]) \<and>
          length (img_data img) = 4 \<and>
          img_data img ! 0 = pixel_at 1 1 0 1 0 1 5 0 0 0 ! 0)"
proof -
  have h: "(0::nat) < 1" "(0::nat) < 4" by simp_all
  from render_deterministic[OF h(1) h(1) h(2), of "[]" 0 1 0 1 5 0 "[]"]
  obtain img where
    "renderMandelbrot [] 1 1 0 1 0 1 5 0 = Inr ([] @ [img])"
    "renderMandelbrot ([] @ [img]) 1 1 0 1 0 1 5 0 = Inr ([] @ [img, img])"
    "length (img_data img) = 4 * 1 * 1"
    "img_data img ! ((0 * 1 + 0) * 4 + 0) = pixel_at 1 1 0 1 0 1 5 0 0 0 ! 0"
    by blast
  then have "renderMandelbrot [] 1 1 0 1 0 1 5 0 = Inr ([] @ [img]) \<and>
          renderMandelbrot [img] 1 1 0 1 0 1 5 0 = Inr ([img] @ [img]) \<and>
          length (img_data img) = 4 \<and>
          img_data img ! 0 = pixel_at 1 1 0 1 0 1 5 0 0 0 ! 0"
    by simp
  with h show ?thesis by blast
qed

subsection \<open>The scale stays in range\<close>

text \<open>
  C9. An update multiplies the scale by 1.005 and replaces a product that reaches 1000000
  by 1. From the initial 100, after any number \<open>n\<close> of updates, the scale is at least 1 and
  below 1000000, and the iteration cap computed from it is at least 500.
\<close>

theorem scale_invariant:
  "scale_update s = (if 1000000 \<le> s * 1.005 then 1 else s * 1.005) \<and>
   initial_scale = 100 \<and>
   1 \<le> (scale_update ^^ n) initial_scale \<and>
   (scale_update ^^ n) initial_scale < 1000000 \<and>
   0 < (scale_update ^^ n) initial_scale \<and>
   500 \<le> dynamicMaxIter ((scale_update ^^ n) initial_scale)"
proof -
  have "scale_update s = (if 1000000 \<le> s * 1.005 then 1 else s * 1.005)"
    by (simp add: scale_update_def zoomSpeed_def MAX_SCALE_def Let_def)
  moreover from scale_reachable[of n]
  have r: "1 \<le> (scale_update ^^ n) initial_scale"
    "(scale_update ^^ n) initial_scale < 1000000"
    by (simp_all add: MAX_SCALE_def)
  moreover from r(1) have "0 < (scale_update ^^ n) initial_scale" by linarith
  moreover from r(1) have "500 \<le> dynamicMaxIter ((scale_update ^^ n) initial_scale)"
    by (rule dynamicMaxIter_floor)
  ultimately show ?thesis by (simp add: initial_scale_def)
qed

subsection \<open>The shader loop is bounded\<close>

text \<open>
  C10. The shader loop is a total function, and for every sample and every cap the number of
  updates it performs is at most \<open>min(uMaxIter, 20000)\<close> (no update at all for a cap below 1).
\<close>

theorem shader_updates_bounded:
  "shader_updates x0 y0 uMaxIter \<le> nat (min uMaxIter 20000) \<and>
   shader_updates x0 y0 uMaxIter \<le> 20000"
proof -
  obtain x y iter n where r: "shader_loop x0 y0 uMaxIter 0 0 0 0 0 = (x, y, iter, n)"
    by (metis prod_cases4)
  from shader_loop_updates[OF _ r] have "int n \<le> max 0 (min uMaxIter 20000)" by simp
  then have "n \<le> nat (min uMaxIter 20000)" "n \<le> 20000" by linarith+
  with r show ?thesis by (simp add: shader_updates_def shader_eval_def)
qed


end
